theory Spec2Isabelle
  imports Complex_Main
begin

section \<open>Shared-module registry: version comparator\<close>

text \<open>
  The embedding follows \<^verbatim>\<open>src/engine/extensions/sharedModules/index.ts\<close>.
  Source strings are modelled as \<^typ>\<open>string\<close>, that is, as lists of 8-bit characters.
\<close>

subsection \<open>Numbers of the host language\<close>

text \<open>
  A value of the host language's number type is \<^verbatim>\<open>NaN\<close>, an infinity or a finite
  value. Finite values are kept exact (as rationals): the code below only compares them, tests
  them for zero and reads the sign of a difference of two distinct values, and the rounded
  difference of two distinct doubles has the sign of the exact one. The two zeros of the host
  language are both \<open>Fin 0\<close> (the code cannot tell them apart: it uses \<^verbatim>\<open>===\<close>,
  \<^verbatim>\<open>||\<close> and \<^verbatim>\<open>>=\<close> only).
\<close>

datatype jsnum = NaN | NegInf | Fin rat | PosInf

text \<open>\<^verbatim>\<open>x || 0\<close>: a falsy number (\<^verbatim>\<open>NaN\<close> or zero) or \<^verbatim>\<open>undefined\<close> becomes 0.\<close>

fun or_zero :: "jsnum \<Rightarrow> jsnum" where
  "or_zero NaN = Fin 0"
| "or_zero x = x"

text \<open>\<^verbatim>\<open>x !== y\<close> on numbers: \<^verbatim>\<open>NaN\<close> differs from everything, itself included.\<close>

fun strict_neq :: "jsnum \<Rightarrow> jsnum \<Rightarrow> bool" where
  "strict_neq NaN y = True"
| "strict_neq x NaN = True"
| "strict_neq x y = (x \<noteq> y)"

text \<open>\<^verbatim>\<open>x - y\<close>.\<close>

fun num_sub :: "jsnum \<Rightarrow> jsnum \<Rightarrow> jsnum" where
  "num_sub NaN y = NaN"
| "num_sub x NaN = NaN"
| "num_sub (Fin a) (Fin b) = Fin (a - b)"
| "num_sub PosInf PosInf = NaN"
| "num_sub NegInf NegInf = NaN"
| "num_sub PosInf y = PosInf"
| "num_sub NegInf y = NegInf"
| "num_sub (Fin a) PosInf = NegInf"
| "num_sub (Fin a) NegInf = PosInf"

text \<open>\<^verbatim>\<open>x >= 0\<close> and \<^verbatim>\<open>x < 0\<close>; both are false on \<^verbatim>\<open>NaN\<close>.\<close>

fun ge_zero :: "jsnum \<Rightarrow> bool" where
  "ge_zero NaN = False"
| "ge_zero NegInf = False"
| "ge_zero (Fin a) = (0 \<le> a)"
| "ge_zero PosInf = True"

fun lt_zero :: "jsnum \<Rightarrow> bool" where
  "lt_zero NaN = False"
| "lt_zero NegInf = True"
| "lt_zero (Fin a) = (a < 0)"
| "lt_zero PosInf = False"

subsection \<open>Strings\<close>

text \<open>\<^verbatim>\<open>s.startsWith(p)\<close>.\<close>

definition startsWith :: "string \<Rightarrow> string \<Rightarrow> bool" where
  "startsWith s p = (take (length p) s = p)"

text \<open>\<^verbatim>\<open>s.split(c)\<close> for a one-character separator: never empty, \<^verbatim>\<open>''.split('.')\<close> is
  \<^verbatim>\<open>['']\<close>.\<close>

fun split :: "char \<Rightarrow> string \<Rightarrow> string list" where
  "split c [] = [[]]"
| "split c (x # xs) =
     (if x = c then [] # split c xs
      else (case split c xs of [] \<Rightarrow> [[x]] | p # ps \<Rightarrow> (x # p) # ps))"

definition is_digit :: "char \<Rightarrow> bool" where
  "is_digit c = (c \<in> set ''0123456789'')"

subsection \<open>parseVersion and compareVersions\<close>

text \<open>
  \<^verbatim>\<open>parseVersion(v) { const parts = v.replace(/^[^0-9]*/, '').split('.').map(Number);
  return [parts[0] || 0, parts[1] || 0, parts[2] || 0]; }\<close>

  The conversion \<^verbatim>\<open>Number\<close> of a string to a number belongs to the host language, not to
  this repository. It is the parameter \<open>num\<close> of every function that parses a version, and the
  theorems hold for every such conversion. An index past the end of \<open>parts\<close> reads
  \<^verbatim>\<open>undefined\<close>, which \<^verbatim>\<open>|| 0\<close> turns into 0.
\<close>

definition part :: "jsnum list \<Rightarrow> nat \<Rightarrow> jsnum" where
  "part parts i = (if i < length parts then or_zero (parts ! i) else Fin 0)"

definition parseVersion :: "(string \<Rightarrow> jsnum) \<Rightarrow> string \<Rightarrow> jsnum \<times> jsnum \<times> jsnum" where
  "parseVersion num v =
     (let parts = map num (split (CHR ''.'') (dropWhile (\<lambda>c. \<not> is_digit c) v))
      in (part parts 0, part parts 1, part parts 2))"

text \<open>
  \<^verbatim>\<open>compareVersions(a, b) { const [aM, aN, aP] = this.parseVersion(a); const [bM, bN, bP] =
  this.parseVersion(b); if (aM !== bM) return aM - bM; if (aN !== bN) return aN - bN;
  return aP - bP; }\<close>
\<close>

definition compareVersions :: "(string \<Rightarrow> jsnum) \<Rightarrow> string \<Rightarrow> string \<Rightarrow> jsnum" where
  "compareVersions num a b =
     (case parseVersion num a of (aM, aN, aP) \<Rightarrow>
      case parseVersion num b of (bM, bN, bP) \<Rightarrow>
        if strict_neq aM bM then num_sub aM bM
        else if strict_neq aN bN then num_sub aN bN
        else num_sub aP bP)"

text \<open>
  \<^verbatim>\<open>satisfies(version, range)\<close>, lines 189 to 205, with \<open>v\<close> for the version and \<open>r\<close> for
  the range; \<^verbatim>\<open>maj === vmaj\<close> is the negation of
  \<^verbatim>\<open>!==\<close>.
\<close>

definition satisfies :: "(string \<Rightarrow> jsnum) \<Rightarrow> string \<Rightarrow> string \<Rightarrow> bool" where
  "satisfies num v r =
     (if r = ''*'' \<or> r = ''latest'' then True
      else if startsWith r ''^'' then
        (let rv = drop 1 r in
         case parseVersion num rv of (maj, _, _) \<Rightarrow>
         case parseVersion num v of (vmaj, _, _) \<Rightarrow>
           \<not> strict_neq maj vmaj \<and> ge_zero (compareVersions num v rv))
      else if startsWith r ''~'' then
        (let rv = drop 1 r in
         case parseVersion num rv of (maj, mnr, _) \<Rightarrow>
         case parseVersion num v of (vmaj, vmnr, _) \<Rightarrow>
           \<not> strict_neq maj vmaj \<and> \<not> strict_neq mnr vmnr
           \<and> ge_zero (compareVersions num v rv))
      else if startsWith r ''>='' then ge_zero (compareVersions num v (drop 2 r))
      else v = r)"

subsection \<open>A conversion for evaluating examples\<close>

text \<open>
  \<open>Number_basic\<close> is the host language's \<^verbatim>\<open>Number\<close> on the empty string (0), on
  strings of at most 15 decimal digits (their value, exactly representable) and on the string
  \<^verbatim>\<open>Infinity\<close>. It is used only to evaluate the functions at concrete versions whose
  segments are such strings; nothing is claimed through it about other strings, on which it
  answers \<^verbatim>\<open>NaN\<close>.
\<close>

definition digit_value :: "char \<Rightarrow> nat" where
  "digit_value c = of_char c - 48"

definition Number_basic :: "string \<Rightarrow> jsnum" where
  "Number_basic s =
     (if s = ''Infinity'' then PosInf
      else if list_all is_digit s \<and> length s \<le> 15
      then Fin (of_nat (foldl (\<lambda>acc c. 10 * acc + digit_value c) 0 s))
      else NaN)"

subsection \<open>The ordering of versions, as the specification words it\<close>

text \<open>\<^verbatim>\<open>x < y\<close> on numbers of the host language (false when either side is \<^verbatim>\<open>NaN\<close>).\<close>

fun num_less :: "jsnum \<Rightarrow> jsnum \<Rightarrow> bool" where
  "num_less NaN y = False"
| "num_less x NaN = False"
| "num_less (Fin a) (Fin b) = (a < b)"
| "num_less PosInf y = False"
| "num_less x NegInf = False"
| "num_less NegInf y = True"
| "num_less (Fin a) PosInf = True"

definition major :: "(string \<Rightarrow> jsnum) \<Rightarrow> string \<Rightarrow> jsnum" where
  "major num v = fst (parseVersion num v)"

definition minor :: "(string \<Rightarrow> jsnum) \<Rightarrow> string \<Rightarrow> jsnum" where
  "minor num v = fst (snd (parseVersion num v))"

definition patch :: "(string \<Rightarrow> jsnum) \<Rightarrow> string \<Rightarrow> jsnum" where
  "patch num v = snd (snd (parseVersion num v))"

text \<open>
  The specification: ``Comparison is lexicographic over (major, minor, patch)''.
  \<open>version_ge num a b\<close> reads \<open>a >= b\<close> in that order, written from these words and not
  from \<open>compareVersions\<close>.
\<close>

definition version_ge :: "(string \<Rightarrow> jsnum) \<Rightarrow> string \<Rightarrow> string \<Rightarrow> bool" where
  "version_ge num a b =
     (num_less (major num b) (major num a)
      \<or> (major num a = major num b
          \<and> (num_less (minor num b) (minor num a)
              \<or> (minor num a = minor num b
                  \<and> (num_less (patch num b) (patch num a) \<or> patch num a = patch num b)))))"

section \<open>Data model\<close>

datatype format = esm | cjs | umd

record ModuleRequest =
  name :: string
  versionRange :: string
  optional :: "bool option"

text \<open>
  An optional field is an \<open>option\<close>. Where the code tests an optional string for truth
  (\<^verbatim>\<open>if (descriptor.localPath)\<close>), the empty string is as false as a missing one.
\<close>

record SharedModuleDescriptor =
  name :: string
  version :: string
  cdnUrl :: "string option"
  localPath :: "string option"
  globalName :: "string option"
  dependencies :: "string list option"
  format :: format
  lazy :: "bool option"

definition present :: "string option \<Rightarrow> bool" where
  "present s = (case s of None \<Rightarrow> False | Some t \<Rightarrow> t \<noteq> [])"

text \<open>
  A module handle is a value of the host language. The code only passes handles on and tests
  them for truth: \<open>Object n\<close> is the object with identity \<open>n\<close>, \<open>Undefined\<close> stands
  for \<^verbatim>\<open>undefined\<close>, \<^verbatim>\<open>null\<close> and every other falsy value.
\<close>

datatype jsvalue = Undefined | Object nat

fun truthy :: "jsvalue \<Rightarrow> bool" where
  "truthy Undefined = False"
| "truthy (Object n) = True"

record LoadedModule =
  descriptor :: SharedModuleDescriptor
  module :: jsvalue
  loadedAt :: nat
  refCount :: int

text \<open>
  Errors as values: the two errors \<open>loadModule\<close> throws, the one the script loaders reject
  with, and the errors that come from outside (a resolver that throws or rejects, a failed
  \<^verbatim>\<open>import()\<close>, a script element's \<^verbatim>\<open>onerror\<close>, a missing \<^verbatim>\<open>document\<close>, and the
  \<^verbatim>\<open>TypeError\<close> of a loader called for a descriptor without the path or URL it reads; the
  source calls a loader only when the descriptor has it).
\<close>

datatype error =
    NoCompatibleDescriptor string string
  | CouldNotLoad string string
  | UmdRequiresGlobalName
  | ImportFailed string
  | ScriptFailed string
  | NoDocument
  | NoPath
  | ResolverFailed nat

text \<open>
  A resolver \<^verbatim>\<open>(name, version) => Promise<any> | null\<close>, awaited: it throws or rejects
  (\<open>Inl\<close>) or gives a value (\<open>Inr\<close>; \<open>Undefined\<close> for \<^verbatim>\<open>null\<close>). Resolvers are taken
  to leave the registry alone.
\<close>

type_synonym resolver = "string \<Rightarrow> string \<Rightarrow> error + jsvalue"

text \<open>
  A \<^verbatim>\<open>Map\<close> of the host language keeps its keys in insertion order; \<^verbatim>\<open>set\<close> on a key
  it has replaces the value in place. It is a list of pairs with distinct keys.
  The pending loads \<^verbatim>\<open>loading: Map<string, Promise<any>>\<close> are kept by their keys.
\<close>

fun map_set :: "'k \<Rightarrow> 'v \<Rightarrow> ('k \<times> 'v) list \<Rightarrow> ('k \<times> 'v) list" where
  "map_set k v [] = [(k, v)]"
| "map_set k v (e # m) = (if fst e = k then (k, v) # m else e # map_set k v m)"

record registry =
  descriptors :: "string \<rightharpoonup> SharedModuleDescriptor list"
  loaded :: "(string \<times> LoadedModule) list"
  loading :: "string list"
  resolvers :: "resolver list"

definition new_registry :: registry where
  "new_registry = \<lparr>descriptors = Map.empty, loaded = [], loading = [], resolvers = []\<rparr>"

text \<open>
  What the loaders reach outside the registry: whether \<^verbatim>\<open>window\<close> and \<^verbatim>\<open>document\<close>
  exist, the global bindings \<^verbatim>\<open>window[name]\<close>, how \<^verbatim>\<open>import(url)\<close> settles, whether a
  script element for a URL fires \<^verbatim>\<open>onload\<close>, and \<^verbatim>\<open>Date.now()\<close>.
\<close>

record host =
  has_window :: bool
  window :: "string \<Rightarrow> jsvalue"
  import_module :: "string \<Rightarrow> error + jsvalue"
  script_loads :: "string \<Rightarrow> bool"
  clock :: nat

section \<open>Descriptor store\<close>

text \<open>
  \<^verbatim>\<open>Array.prototype.sort(comparefn)\<close> is stable, and for a consistent comparator its result
  is the one stable arrangement in which no element is followed by one that the comparator puts
  strictly before it. Insertion from the right computes that arrangement: \<open>x\<close> stood before
  every element of \<open>ys\<close>, so it passes exactly the elements that come strictly before it
  (\<^verbatim>\<open>comparefn(y, x) < 0\<close>).
\<close>

fun sort_insert :: "('a \<Rightarrow> 'a \<Rightarrow> jsnum) \<Rightarrow> 'a \<Rightarrow> 'a list \<Rightarrow> 'a list" where
  "sort_insert cmp x [] = [x]"
| "sort_insert cmp x (y # ys) =
     (if lt_zero (cmp y x) then y # sort_insert cmp x ys else x # y # ys)"

definition array_sort :: "('a \<Rightarrow> 'a \<Rightarrow> jsnum) \<Rightarrow> 'a list \<Rightarrow> 'a list" where
  "array_sort cmp xs = foldr (sort_insert cmp) xs []"

text \<open>
  \<^verbatim>\<open>register(d) { const arr = this.descriptors.get(d.name) || []; arr.push(d);
  arr.sort((a, b) => this.compareVersions(b.version, a.version));
  this.descriptors.set(d.name, arr); }\<close>
\<close>

definition register :: "(string \<Rightarrow> jsnum) \<Rightarrow> registry \<Rightarrow> SharedModuleDescriptor \<Rightarrow> registry" where
  "register num reg d =
     (let arr = (case descriptors reg (name d) of Some a \<Rightarrow> a | None \<Rightarrow> [])
      in reg\<lparr>descriptors := (descriptors reg)(name d \<mapsto>
           array_sort (\<lambda>a b. compareVersions num (version b) (version a)) (arr @ [d]))\<rparr>)"

text \<open>\<^verbatim>\<open>registerAll(list) { for (const d of list) this.register(d); }\<close>\<close>

definition registerAll ::
  "(string \<Rightarrow> jsnum) \<Rightarrow> registry \<Rightarrow> SharedModuleDescriptor list \<Rightarrow> registry" where
  "registerAll num reg list = foldl (register num) reg list"

text \<open>\<^verbatim>\<open>addResolver(resolver) { this.resolvers.push(resolver); }\<close>\<close>

definition addResolver :: "registry \<Rightarrow> resolver \<Rightarrow> registry" where
  "addResolver reg resolver = reg\<lparr>resolvers := resolvers reg @ [resolver]\<rparr>"

text \<open>
  \<^verbatim>\<open>findCompatibleDescriptor(name, versionRange) { const list = this.descriptors.get(name);
  if (!list) return null;
  for (const d of list) if (this.satisfies(d.version, versionRange)) return d; return null; }\<close>
\<close>

definition findCompatibleDescriptor ::
  "(string \<Rightarrow> jsnum) \<Rightarrow> registry \<Rightarrow> string \<Rightarrow> string \<Rightarrow> SharedModuleDescriptor option" where
  "findCompatibleDescriptor num reg nm r =
     (case descriptors reg nm of
        None \<Rightarrow> None
      | Some list \<Rightarrow> find (\<lambda>d. satisfies num (version d) r) list)"

section \<open>Loaded-instance cache\<close>

text \<open>
  \<^verbatim>\<open>findCompatibleLoaded(name, versionRange) { for (const [k, v] of this.loaded) { if
  (k.startsWith(`${name}@`) && this.satisfies(v.descriptor.version, versionRange)) return v; }
  return null; }\<close>

  The entry is returned with its key, which stands for the reference to the object.
\<close>

definition compatible :: "(string \<Rightarrow> jsnum) \<Rightarrow> string \<Rightarrow> string \<Rightarrow> string \<times> LoadedModule \<Rightarrow> bool" where
  "compatible num nm r e =
     (startsWith (fst e) (nm @ ''@'') \<and> satisfies num (version (descriptor (snd e))) r)"

definition findCompatibleLoaded ::
  "(string \<Rightarrow> jsnum) \<Rightarrow> registry \<Rightarrow> string \<Rightarrow> string \<Rightarrow> (string \<times> LoadedModule) option" where
  "findCompatibleLoaded num reg nm r = find (compatible num nm r) (loaded reg)"

text \<open>
  \<^verbatim>\<open>release(name, versionRange = '*') { const loaded = this.findCompatibleLoaded(name,
  versionRange); if (loaded) { loaded.refCount = Math.max(0, loaded.refCount - 1); } }\<close>
\<close>

definition release :: "(string \<Rightarrow> jsnum) \<Rightarrow> registry \<Rightarrow> string \<Rightarrow> string \<Rightarrow> registry" where
  "release num reg nm r =
     (case findCompatibleLoaded num reg nm r of
        None \<Rightarrow> reg
      | Some (k, v) \<Rightarrow>
          reg\<lparr>loaded := map_set k (v\<lparr>refCount := max 0 (refCount v - 1)\<rparr>) (loaded reg)\<rparr>)"

text \<open>
  \<^verbatim>\<open>cacheModule(descriptor, module) { const key = `${descriptor.name}@${descriptor.version}`;
  this.loaded.set(key, { descriptor, module, loadedAt: Date.now(), refCount: 1 });
  return module; }\<close>

  The model returns the registry; the caller returns the module.
\<close>

definition cacheModule :: "host \<Rightarrow> registry \<Rightarrow> SharedModuleDescriptor \<Rightarrow> jsvalue \<Rightarrow> registry" where
  "cacheModule h reg d m =
     reg\<lparr>loaded := map_set (name d @ ''@'' @ version d)
        \<lparr>descriptor = d, module = m, loadedAt = clock h, refCount = 1\<rparr> (loaded reg)\<rparr>"

section \<open>Load coordinator\<close>

subsection \<open>Built-in sources\<close>

text \<open>
  \<^verbatim>\<open>loadFromLocal(descriptor)\<close>, lines 138 to 151, and \<^verbatim>\<open>loadFromCdn(descriptor)\<close>, lines 153
  to 166. They differ in the URL only; \<open>loadUrl\<close> is their common part: an ES module is
  imported, anything else is loaded by a script element, which needs \<^verbatim>\<open>document\<close> and, once
  loaded, resolves with \<^verbatim>\<open>window[descriptor.globalName]\<close> or rejects when the descriptor
  names no global.
\<close>

definition loadUrl :: "host \<Rightarrow> SharedModuleDescriptor \<Rightarrow> string \<Rightarrow> error + jsvalue" where
  "loadUrl h d url =
     (if format d = esm then import_module h url
      else if \<not> has_window h then Inl NoDocument
      else if \<not> script_loads h url then Inl (ScriptFailed url)
      else (case globalName d of
              None \<Rightarrow> Inl UmdRequiresGlobalName
            | Some g \<Rightarrow> if g = [] then Inl UmdRequiresGlobalName else Inr (window h g)))"

definition loadFromLocal :: "host \<Rightarrow> SharedModuleDescriptor \<Rightarrow> error + jsvalue" where
  "loadFromLocal h d =
     (case localPath d of
        None \<Rightarrow> Inl NoPath
      | Some p \<Rightarrow> loadUrl h d (if startsWith p ''/'' then p else ''/'' @ p))"

definition loadFromCdn :: "host \<Rightarrow> SharedModuleDescriptor \<Rightarrow> error + jsvalue" where
  "loadFromCdn h d = (case cdnUrl d of None \<Rightarrow> Inl NoPath | Some url \<Rightarrow> loadUrl h d url)"

subsection \<open>What a load does, in order\<close>

text \<open>
  A load is observed through the list of the operations it awaits, in the order in which it
  starts them. A dependency's \<^verbatim>\<open>await this.require(dep)\<close> is one entry: it carries the name,
  the range, whether the dependency was fulfilled, and what was awaited inside it, all of which
  happened before the next entry starts.
\<close>

datatype event =
    Dependency string string bool "event list"
  | ResolverCall nat
  | LocalLoad string
  | CdnLoad string
  | GlobalLookup string




subsection \<open>The source chain of loadModule\<close>

text \<open>
  Lines 107 to 110: \<^verbatim>\<open>for (const r of this.resolvers) { const res = await r(name,
  descriptor.version); if (res) return this.cacheModule(descriptor, res); }\<close>. No handler
  surrounds the \<^verbatim>\<open>await\<close>: an error of a resolver leaves \<open>loadModule\<close>. The result is the
  error, or the first truthy value, or nothing; \<open>i\<close> counts the resolvers already asked.
\<close>

fun askResolvers ::
  "resolver list \<Rightarrow> nat \<Rightarrow> string \<Rightarrow> string \<Rightarrow> (error + jsvalue option) \<times> event list" where
  "askResolvers [] i nm v = (Inr None, [])"
| "askResolvers (r # rs) i nm v =
     (case r nm v of
        Inl e \<Rightarrow> (Inl e, [ResolverCall i])
      | Inr res \<Rightarrow>
          if truthy res then (Inr (Some res), [ResolverCall i])
          else (case askResolvers rs (Suc i) nm v of (out, tr) \<Rightarrow> (out, ResolverCall i # tr)))"

text \<open>
  Lines 130 to 135: the global binding, then the final error.
\<close>

definition fromGlobal :: "host \<Rightarrow> string \<Rightarrow> SharedModuleDescriptor \<Rightarrow> (error + jsvalue) \<times> event list" where
  "fromGlobal h nm d =
     (case globalName d of
        Some g \<Rightarrow>
          if g \<noteq> [] \<and> has_window h then
            (if truthy (window h g) then (Inr (window h g), [GlobalLookup g])
             else (Inl (CouldNotLoad nm (version d)), [GlobalLookup g]))
          else (Inl (CouldNotLoad nm (version d)), [])
      | None \<Rightarrow> (Inl (CouldNotLoad nm (version d)), []))"

text \<open>Lines 121 to 128: the remote URL; a failure is caught and the chain goes on.\<close>

definition fromCdn :: "host \<Rightarrow> string \<Rightarrow> SharedModuleDescriptor \<Rightarrow> (error + jsvalue) \<times> event list" where
  "fromCdn h nm d =
     (if present (cdnUrl d) then
        (case loadFromCdn h d of
           Inr m \<Rightarrow> (Inr m, [CdnLoad (the (cdnUrl d))])
         | Inl e \<Rightarrow> (case fromGlobal h nm d of (out, tr) \<Rightarrow> (out, CdnLoad (the (cdnUrl d)) # tr)))
      else fromGlobal h nm d)"

text \<open>Lines 112 to 119: the local bundle; a failure is caught and the chain goes on.\<close>

definition fromLocal :: "host \<Rightarrow> string \<Rightarrow> SharedModuleDescriptor \<Rightarrow> (error + jsvalue) \<times> event list" where
  "fromLocal h nm d =
     (if present (localPath d) then
        (case loadFromLocal h d of
           Inr m \<Rightarrow> (Inr m, [LocalLoad (the (localPath d))])
         | Inl e \<Rightarrow> (case fromCdn h nm d of (out, tr) \<Rightarrow> (out, LocalLoad (the (localPath d)) # tr)))
      else fromCdn h nm d)"

text \<open>
  Lines 107 to 135 together. Every successful branch is \<^verbatim>\<open>return this.cacheModule(descriptor,
  value)\<close>; \<open>loadModule\<close> below applies \<open>cacheModule\<close> to the value this chain gives.
\<close>

definition loadSources ::
  "host \<Rightarrow> registry \<Rightarrow> string \<Rightarrow> SharedModuleDescriptor \<Rightarrow> (error + jsvalue) \<times> event list" where
  "loadSources h reg nm d =
     (case askResolvers (resolvers reg) 0 nm (version d) of
        (Inl e, tr) \<Rightarrow> (Inl e, tr)
      | (Inr (Some res), tr) \<Rightarrow> (Inr res, tr)
      | (Inr None, tr) \<Rightarrow> (case fromLocal h nm d of (out, tr') \<Rightarrow> (out, tr @ tr')))"

subsection \<open>require and loadModule\<close>

text \<open>
  \<^verbatim>\<open>require\<close>, lines 50 to 66, has one suspension point, \<^verbatim>\<open>await p\<close>. What it does before
  it is \<open>require_enter\<close>: a compatible cached instance is counted once more and returned
  (\<open>Hit\<close>); else a pending load under the key \<^verbatim>\<open>`${name}@${versionRange}`\<close> is returned as it
  is (\<open>Joined\<close>); else a load is started and registered under that key (\<open>Started\<close>). What it
  does after the load settled is \<open>require_leave\<close>, the \<^verbatim>\<open>finally\<close> block.
\<close>

datatype entered = Hit jsvalue | Joined string | Started string

definition require_enter ::
  "(string \<Rightarrow> jsnum) \<Rightarrow> registry \<Rightarrow> string \<Rightarrow> string \<Rightarrow> entered \<times> registry" where
  "require_enter num reg nm r =
     (case findCompatibleLoaded num reg nm r of
        Some (k, cached) \<Rightarrow>
          (Hit (module cached),
           reg\<lparr>loaded := map_set k (cached\<lparr>refCount := refCount cached + 1\<rparr>) (loaded reg)\<rparr>)
      | None \<Rightarrow>
          (let cacheKey = nm @ ''@'' @ r in
           if cacheKey \<in> set (loading reg) then (Joined cacheKey, reg)
           else (Started cacheKey, reg\<lparr>loading := loading reg @ [cacheKey]\<rparr>)))"

definition require_leave :: "registry \<Rightarrow> string \<Rightarrow> registry" where
  "require_leave reg cacheKey = reg\<lparr>loading := removeAll cacheKey (loading reg)\<rparr>"

text \<open>
  A call that runs with nothing else interleaved: every \<^verbatim>\<open>await\<close> continues when the awaited
  operation has settled. The result is the outcome (\<open>Inl\<close> a rejection), the registry afterwards
  and the operations awaited. The first argument bounds the depth of nested calls; \<open>None\<close>
  means that the bound was reached, or that the call joined a pending load, whose outcome another
  call decides (in a run without interleaving only a cycle of dependencies leads there).

  \<^verbatim>\<open>loadModule\<close>, lines 99 to 136: the descriptor, then the dependencies one after the other
  (\<^verbatim>\<open>for (const dep of descriptor.dependencies) await this.require(dep)\<close>, the range being the
  default \<^verbatim>\<open>'*'\<close>), then the source chain.
\<close>

fun require ::
    "nat \<Rightarrow> (string \<Rightarrow> jsnum) \<Rightarrow> host \<Rightarrow> registry \<Rightarrow> string \<Rightarrow> string
      \<Rightarrow> ((error + jsvalue) \<times> registry \<times> event list) option"
  and loadModule ::
    "nat \<Rightarrow> (string \<Rightarrow> jsnum) \<Rightarrow> host \<Rightarrow> registry \<Rightarrow> string \<Rightarrow> string
      \<Rightarrow> ((error + jsvalue) \<times> registry \<times> event list) option"
  and loadDependencies ::
    "nat \<Rightarrow> (string \<Rightarrow> jsnum) \<Rightarrow> host \<Rightarrow> registry \<Rightarrow> string list
      \<Rightarrow> ((error + unit) \<times> registry \<times> event list) option"
where
  "require 0 num h reg nm r = None"
| "require (Suc n) num h reg nm r =
     (case require_enter num reg nm r of
        (Hit m, reg') \<Rightarrow> Some (Inr m, reg', [])
      | (Joined cacheKey, reg') \<Rightarrow> None
      | (Started cacheKey, reg') \<Rightarrow>
          (case loadModule n num h reg' nm r of
             None \<Rightarrow> None
           | Some (out, reg'', tr) \<Rightarrow> Some (out, require_leave reg'' cacheKey, tr)))"
| "loadModule 0 num h reg nm r = None"
| "loadModule (Suc n) num h reg nm r =
     (case findCompatibleDescriptor num reg nm r of
        None \<Rightarrow> Some (Inl (NoCompatibleDescriptor nm r), reg, [])
      | Some d \<Rightarrow>
          (case loadDependencies n num h reg (case dependencies d of None \<Rightarrow> [] | Some ds \<Rightarrow> ds) of
             None \<Rightarrow> None
           | Some (Inl e, reg', tr) \<Rightarrow> Some (Inl e, reg', tr)
           | Some (Inr u, reg', tr) \<Rightarrow>
               (case loadSources h reg' nm d of
                  (Inl e, tr') \<Rightarrow> Some (Inl e, reg', tr @ tr')
                | (Inr m, tr') \<Rightarrow> Some (Inr m, cacheModule h reg' d m, tr @ tr'))))"
| "loadDependencies n num h reg [] = Some (Inr (), reg, [])"
| "loadDependencies n num h reg (dep # deps) =
     (case require n num h reg dep ''*'' of
        None \<Rightarrow> None
      | Some (Inl e, reg', tr) \<Rightarrow> Some (Inl e, reg', [Dependency dep ''*'' False tr])
      | Some (Inr m, reg', tr) \<Rightarrow>
          (case loadDependencies n num h reg' deps of
             None \<Rightarrow> None
           | Some (out, reg'', tr') \<Rightarrow> Some (out, reg'', Dependency dep ''*'' True tr # tr')))"

subsection \<open>requireAll\<close>

text \<open>
  \<^verbatim>\<open>requireAll(requests)\<close>, lines 75 to 89. The \<^verbatim>\<open>require\<close> calls of a batch run interleaved.
  The model takes a batch in which each of them settles, fulfilled or rejected, whatever the
  interleaving. What \<open>requireAll\<close> does with one settled request is the body of the function
  it maps over the requests:
  \<^verbatim>\<open>try { const m = await this.require(req.name, req.versionRange); results.set(req.name, m); }
  catch (e) { if (!req.optional) throw e; console.warn(...); }\<close>
\<close>

definition requireAll_item ::
  "ModuleRequest \<Rightarrow> error + jsvalue \<Rightarrow> (string \<times> jsvalue) list
     \<Rightarrow> (error + unit) \<times> (string \<times> jsvalue) list" where
  "requireAll_item req out results =
     (case out of
        Inr m \<Rightarrow> (Inr (), map_set (ModuleRequest.name req) m results)
      | Inl e \<Rightarrow> if optional req = Some True then (Inr (), results) else (Inl e, results))"

text \<open>
  \<^verbatim>\<open>await Promise.all(...); return results;\<close> over the requests with their outcomes, in the
  order in which they settle: the first rejection of an item rejects \<^verbatim>\<open>Promise.all\<close> and
  with it \<open>requireAll\<close>; if no item rejects, the map is returned.
\<close>

fun requireAll_settle ::
  "(ModuleRequest \<times> (error + jsvalue)) list \<Rightarrow> (string \<times> jsvalue) list
     \<Rightarrow> error + (string \<times> jsvalue) list" where
  "requireAll_settle [] results = Inr results"
| "requireAll_settle ((req, out) # rest) results =
     (case requireAll_item req out results of
        (Inl e, results') \<Rightarrow> Inl e
      | (Inr u, results') \<Rightarrow> requireAll_settle rest results')"

definition requireAll :: "(ModuleRequest \<times> (error + jsvalue)) list \<Rightarrow> error + (string \<times> jsvalue) list" where
  "requireAll settled = requireAll_settle settled []"

section \<open>Extension loader: the global binding name\<close>

text \<open>
  Line 238: \<^verbatim>\<open>const globalKey = `__PYXIS_SHARED_${name.replace(/[^a-zA-Z0-9]/g,
  '_').toUpperCase()}__`;\<close>. After the replacement only letters, digits and underscores are
  left, on which \<^verbatim>\<open>toUpperCase\<close> changes the lower-case letters only.
\<close>

definition is_lower :: "char \<Rightarrow> bool" where
  "is_lower c = (c \<in> set ''abcdefghijklmnopqrstuvwxyz'')"

definition is_upper :: "char \<Rightarrow> bool" where
  "is_upper c = (c \<in> set ''ABCDEFGHIJKLMNOPQRSTUVWXYZ'')"

definition is_alnum :: "char \<Rightarrow> bool" where
  "is_alnum c = (is_lower c \<or> is_upper c \<or> is_digit c)"

definition upper_char :: "char \<Rightarrow> char" where
  "upper_char c =
     (case map_of (zip ''abcdefghijklmnopqrstuvwxyz'' ''ABCDEFGHIJKLMNOPQRSTUVWXYZ'') c of
        Some u \<Rightarrow> u
      | None \<Rightarrow> c)"

definition toUpperCase :: "string \<Rightarrow> string" where
  "toUpperCase s = map upper_char s"

definition replace_non_alnum :: "string \<Rightarrow> string" where
  "replace_non_alnum s = map (\<lambda>c. if is_alnum c then c else CHR ''_'') s"

definition globalKey :: "string \<Rightarrow> string" where
  "globalKey nm = ''__PYXIS_SHARED_'' @ toUpperCase (replace_non_alnum nm) @ ''__''"

section \<open>Extension loader: rewriting the imports\<close>

subsection \<open>The four patterns\<close>




text \<open>
  The character classes of the patterns: \<^verbatim>\<open>\s\<close>, \<^verbatim>\<open>\w\<close>, \<^verbatim>\<open>[^}]\<close> and \<^verbatim>\<open>['"]\<close>.
\<close>

datatype cls = Space | Word | NotBrace | Quote

definition is_space :: "char \<Rightarrow> bool" where
  "is_space c = (c \<in> set [CHR 0x09, CHR 0x0A, CHR 0x0B, CHR 0x0C, CHR 0x0D, CHR 0x20, CHR 0xA0])"

definition is_word :: "char \<Rightarrow> bool" where
  "is_word c = (is_alnum c \<or> c = CHR ''_'')"

fun in_cls :: "cls \<Rightarrow> char \<Rightarrow> bool" where
  "in_cls Space c = is_space c"
| "in_cls Word c = is_word c"
| "in_cls NotBrace c = (c \<noteq> CHR ''}'')"
| "in_cls Quote c = (c = CHR 0x27 \<or> c = CHR 0x22)"



definition run :: "cls \<Rightarrow> string \<Rightarrow> nat" where
  "run c s = length (takeWhile (in_cls c) s)"











subsection \<open>Replacing every match\<close>








section \<open>Vocabulary of the properties\<close>

text \<open>
  What the descriptor store holds after the descriptors \<open>ds\<close> were registered: under every
  name the registered descriptors of that name, highest version first.
\<close>

definition store_of :: "(string \<Rightarrow> jsnum) \<Rightarrow> registry \<Rightarrow> SharedModuleDescriptor list \<Rightarrow> bool" where
  "store_of num reg ds =
     (\<forall>nm. case descriptors reg nm of
         None \<Rightarrow> \<forall>x\<in>set ds. name x \<noteq> nm
       | Some l \<Rightarrow> sorted_wrt (\<lambda>a b. version_ge num (version a) (version b)) l
                   \<and> set l = {x \<in> set ds. name x = nm})"

text \<open>
  Two characters that the derivation of the global binding name does not tell apart: both are
  not alphanumeric, or both are and differ at most in case.
\<close>

definition same_class :: "char \<Rightarrow> char \<Rightarrow> bool" where
  "same_class c d =
     (if is_alnum c then is_alnum d \<and> upper_char c = upper_char d else \<not> is_alnum d)"

text \<open>The patch component of a version is a finite number.\<close>

definition finite_patch :: "(string \<Rightarrow> jsnum) \<Rightarrow> string \<Rightarrow> bool" where
  "finite_patch num v = (patch num v \<noteq> PosInf \<and> patch num v \<noteq> NegInf)"


subsection \<open>Inputs of the examples\<close>

definition lib :: "string \<Rightarrow> SharedModuleDescriptor" where
  "lib v = \<lparr>name = ''lib'', version = v, cdnUrl = None, localPath = None, globalName = None,
            dependencies = None, format = esm, lazy = None\<rparr>"

definition cached :: "string \<Rightarrow> nat \<Rightarrow> int \<Rightarrow> string \<times> LoadedModule" where
  "cached v n c =
     (''lib@'' @ v, \<lparr>descriptor = lib v, module = Object n, loadedAt = 0, refCount = c\<rparr>)"

definition two_cached :: registry where
  "two_cached = new_registry\<lparr>loaded := [cached ''1.0.0'' 1 1, cached ''2.0.0'' 2 1]\<rparr>"

text \<open>
  A host with no window, on which every import and every script fails; a resolver that answers
  every request with an object that tells version 1.0.0 from the others; the registry with the
  descriptors \<open>lib@1.0.0\<close> and \<open>lib@2.0.0\<close> and that resolver.
\<close>

definition bare_host :: host where
  "bare_host = \<lparr>has_window = False, window = (\<lambda>g. Undefined),
     import_module = (\<lambda>url. Inl (ImportFailed url)), script_loads = (\<lambda>url. False), clock = 0\<rparr>"

definition answering :: resolver where
  "answering nm v = (if v = ''1.0.0'' then Inr (Object 1) else Inr (Object 2))"

definition lib_registry :: registry where
  "lib_registry =
     addResolver (registerAll Number_basic new_registry [lib ''1.0.0'', lib ''2.0.0'']) answering"

text \<open>The registry a call leaves behind (the new registry if the call gave no result).\<close>

definition registry_after :: "('a \<times> registry \<times> event list) option \<Rightarrow> registry" where
  "registry_after x = (case x of Some (out, reg, tr) \<Rightarrow> reg | None \<Rightarrow> new_registry)"

definition outcome_of :: "('a \<times> registry \<times> event list) option \<Rightarrow> 'a option" where
  "outcome_of x = map_option fst x"

definition awaited :: "('a \<times> registry \<times> event list) option \<Rightarrow> event list" where
  "awaited x = (case x of Some (out, reg, tr) \<Rightarrow> tr | None \<Rightarrow> [])"

text \<open>
  \<open>lib@1.0.0\<close> required by its exact version, then \<open>lib@2.0.0\<close> by the range
  \<^verbatim>\<open>^2.0.0\<close>: both versions are cached, the lower one first.
\<close>

definition exact_cached :: registry where
  "exact_cached = registry_after (require 2 Number_basic bare_host lib_registry ''lib'' ''1.0.0'')"

definition both_cached :: registry where
  "both_cached = registry_after (require 2 Number_basic bare_host exact_cached ''lib'' ''^2.0.0'')"

text \<open>
  A module \<open>app\<close> with the dependencies \<open>lib\<close> and \<open>util\<close>, and a module \<open>broken\<close>
  whose second dependency \<open>ghost\<close> is not registered.
\<close>

definition util :: SharedModuleDescriptor where
  "util = (lib ''1.0.0'')\<lparr>name := ''util''\<rparr>"

definition app :: SharedModuleDescriptor where
  "app = (lib ''1.0.0'')\<lparr>name := ''app'', dependencies := Some [''lib'', ''util'']\<rparr>"

definition broken :: SharedModuleDescriptor where
  "broken = (lib ''1.0.0'')\<lparr>name := ''broken'', dependencies := Some [''lib'', ''ghost'', ''util'']\<rparr>"

definition app_registry :: registry where
  "app_registry =
     addResolver (registerAll Number_basic new_registry [lib ''1.0.0'', util, app, broken]) answering"

text \<open>
  A module \<open>pkg\<close> with a local bundle and a remote URL; a host that serves the local bundle, and
  one that serves the remote URL only; a resolver that throws.
\<close>

definition pkg :: SharedModuleDescriptor where
  "pkg = (lib ''1.0.0'')\<lparr>name := ''pkg'', localPath := Some ''/shared/pkg.js'',
           cdnUrl := Some ''https://cdn.example/pkg.js''\<rparr>"

definition local_host :: host where
  "local_host = bare_host\<lparr>import_module :=
     (\<lambda>url. if url = ''/shared/pkg.js'' then Inr (Object 7) else Inl (ImportFailed url))\<rparr>"

definition cdn_host :: host where
  "cdn_host = bare_host\<lparr>import_module :=
     (\<lambda>url. if url = ''https://cdn.example/pkg.js'' then Inr (Object 8) else Inl (ImportFailed url))\<rparr>"

definition throwing :: resolver where
  "throwing nm v = Inl (ResolverFailed 0)"

definition pkg_registry :: registry where
  "pkg_registry = registerAll Number_basic new_registry [pkg]"

text \<open>
  Two calls \<^verbatim>\<open>require('lib', '*')\<close> made one after the other before anything settles. The
  first finds nothing cached and nothing pending, starts the load, which is suspended at
  \<^verbatim>\<open>await r(name, descriptor.version)\<close>, and registers it under \<^verbatim>\<open>lib@*\<close>. The second runs
  next. Then the load goes on and settles, and the first call's \<^verbatim>\<open>finally\<close> block runs. Up to
  its suspension the load has read the descriptor store and called the resolver; it has not
  changed the registry.
\<close>

definition first_call :: "entered \<times> registry" where
  "first_call = require_enter Number_basic lib_registry ''lib'' ''*''"

definition second_call :: "entered \<times> registry" where
  "second_call = require_enter Number_basic (snd first_call) ''lib'' ''*''"

definition shared_load :: "((error + jsvalue) \<times> registry \<times> event list) option" where
  "shared_load = loadModule 1 Number_basic bare_host (snd second_call) ''lib'' ''*''"

definition both_settled :: registry where
  "both_settled = require_leave (registry_after shared_load) ''lib@*''"

text \<open>The same two calls, the second made after the first has settled.\<close>

definition one_after_the_other :: registry where
  "one_after_the_other =
     registry_after (require 2 Number_basic bare_host
       (registry_after (require 2 Number_basic bare_host lib_registry ''lib'' ''*'')) ''lib'' ''*'')"

text \<open>Requests of a batch: an optional one and a required one.\<close>

definition wanted :: "string \<Rightarrow> bool option \<Rightarrow> ModuleRequest" where
  "wanted nm opt = \<lparr>ModuleRequest.name = nm, versionRange = ''*'', optional = opt\<rparr>"

section \<open>Properties\<close>

subsection \<open>The comparator is the lexicographic order\<close>

lemma part_not_NaN: "part ps i \<noteq> NaN"
  by (cases "ps ! i") (auto simp: part_def)

lemma major_not_NaN: "major num v \<noteq> NaN"
  by (simp add: major_def parseVersion_def Let_def part_not_NaN)

lemma minor_not_NaN: "minor num v \<noteq> NaN"
  by (simp add: minor_def parseVersion_def Let_def part_not_NaN)

lemma patch_not_NaN: "patch num v \<noteq> NaN"
  by (simp add: patch_def parseVersion_def Let_def part_not_NaN)

lemma parseVersion_parts: "parseVersion num v = (major num v, minor num v, patch num v)"
  by (simp add: major_def minor_def patch_def)

lemma strict_neq_iff: "x \<noteq> NaN \<Longrightarrow> y \<noteq> NaN \<Longrightarrow> strict_neq x y = (x \<noteq> y)"
  by (cases x; cases y) simp_all

lemma lt_zero_sub: "x \<noteq> NaN \<Longrightarrow> y \<noteq> NaN \<Longrightarrow> lt_zero (num_sub x y) = num_less x y"
  by (cases x; cases y) auto

lemma ge_zero_sub: "x \<noteq> NaN \<Longrightarrow> y \<noteq> NaN \<Longrightarrow>
  ge_zero (num_sub x y) = (num_less y x \<or> (x = y \<and> x \<noteq> PosInf \<and> x \<noteq> NegInf))"
  by (cases x; cases y) auto

lemma num_less_irrefl [simp]: "\<not> num_less x x"
  by (cases x) auto

lemma num_less_trans: "num_less x y \<Longrightarrow> num_less y z \<Longrightarrow> num_less x z"
  by (cases x; cases y; cases z) auto

lemma not_num_less: "x \<noteq> NaN \<Longrightarrow> y \<noteq> NaN \<Longrightarrow> (\<not> num_less y x) = (num_less x y \<or> x = y)"
  by (cases x; cases y) auto

lemma lt_zero_compareVersions:
  "lt_zero (compareVersions num a b) = (\<not> version_ge num a b)"
proof -
  note nn = major_not_NaN[of num a] major_not_NaN[of num b] minor_not_NaN[of num a]
    minor_not_NaN[of num b] patch_not_NaN[of num a] patch_not_NaN[of num b]
  show ?thesis
  proof (cases "major num a = major num b")
    case False
    then show ?thesis using nn
      by (simp add: compareVersions_def parseVersion_parts version_ge_def strict_neq_iff
          lt_zero_sub not_num_less)
  next
    case M: True
    show ?thesis
    proof (cases "minor num a = minor num b")
      case False
      then show ?thesis using nn M
        by (simp add: compareVersions_def parseVersion_parts version_ge_def strict_neq_iff
            lt_zero_sub not_num_less)
    next
      case True
      then show ?thesis using nn M
        by (simp add: compareVersions_def parseVersion_parts version_ge_def strict_neq_iff
            lt_zero_sub not_num_less) (metis not_num_less)
    qed
  qed
qed

lemma ge_zero_compareVersions:
  "ge_zero (compareVersions num a b) =
     (version_ge num a b \<and>
      \<not> (major num a = major num b \<and> minor num a = minor num b \<and> patch num a = patch num b
         \<and> (patch num a = PosInf \<or> patch num a = NegInf)))"
proof -
  note nn = major_not_NaN[of num a] major_not_NaN[of num b] minor_not_NaN[of num a]
    minor_not_NaN[of num b] patch_not_NaN[of num a] patch_not_NaN[of num b]
  show ?thesis
  proof (cases "major num a = major num b")
    case False
    then show ?thesis using nn
      by (simp add: compareVersions_def parseVersion_parts version_ge_def strict_neq_iff
          ge_zero_sub)
  next
    case M: True
    show ?thesis
    proof (cases "minor num a = minor num b")
      case False
      then show ?thesis using nn M
        by (simp add: compareVersions_def parseVersion_parts version_ge_def strict_neq_iff
            ge_zero_sub)
    next
      case True
      then show ?thesis using nn M
        by (auto simp add: compareVersions_def parseVersion_parts version_ge_def strict_neq_iff
            ge_zero_sub)
    qed
  qed
qed

lemma version_ge_refl: "version_ge num a a"
  by (simp add: version_ge_def)

lemma version_ge_total: "\<not> version_ge num a b \<Longrightarrow> version_ge num b a"
proof -
  assume n: "\<not> version_ge num a b"
  note nn = major_not_NaN[of num a] major_not_NaN[of num b] minor_not_NaN[of num a]
    minor_not_NaN[of num b] patch_not_NaN[of num a] patch_not_NaN[of num b]
  have 1: "\<not> num_less (major num b) (major num a)" using n by (simp add: version_ge_def)
  show ?thesis
  proof (cases "major num a = major num b")
    case False
    with 1 nn have "num_less (major num a) (major num b)" by (simp add: not_num_less)
    then show ?thesis by (simp add: version_ge_def)
  next
    case M: True
    with n have 2: "\<not> num_less (minor num b) (minor num a)" by (simp add: version_ge_def)
    show ?thesis
    proof (cases "minor num a = minor num b")
      case False
      with 2 nn have "num_less (minor num a) (minor num b)" by (simp add: not_num_less)
      then show ?thesis using M by (simp add: version_ge_def)
    next
      case True
      with n M have "\<not> num_less (patch num b) (patch num a)" "patch num a \<noteq> patch num b"
        by (simp_all add: version_ge_def)
      with nn have "num_less (patch num a) (patch num b)" by (simp add: not_num_less)
      then show ?thesis using M True by (simp add: version_ge_def)
    qed
  qed
qed

lemma version_ge_trans:
  assumes "version_ge num a b" "version_ge num b c"
  shows "version_ge num a c"
proof -
  let ?M = "major num" and ?N = "minor num" and ?P = "patch num"
  from assms(1) consider
      (m) "num_less (?M b) (?M a)"
    | (n) "?M a = ?M b" "num_less (?N b) (?N a)"
    | (p) "?M a = ?M b" "?N a = ?N b" "num_less (?P b) (?P a) \<or> ?P a = ?P b"
    unfolding version_ge_def by blast
  then show ?thesis
  proof cases
    case m
    from assms(2) have "num_less (?M c) (?M b) \<or> ?M b = ?M c" unfolding version_ge_def by blast
    with m have "num_less (?M c) (?M a)" using num_less_trans by metis
    then show ?thesis by (simp add: version_ge_def)
  next
    case n
    from assms(2) consider "num_less (?M c) (?M b)"
      | "?M b = ?M c" "num_less (?N c) (?N b) \<or> ?N b = ?N c"
      unfolding version_ge_def by blast
    then show ?thesis
    proof cases
      case 1
      with n show ?thesis by (simp add: version_ge_def)
    next
      case 2
      with n have "num_less (?N c) (?N a)" using num_less_trans by metis
      with n 2 show ?thesis by (simp add: version_ge_def)
    qed
  next
    case p
    from assms(2) consider "num_less (?M c) (?M b)"
      | "?M b = ?M c" "num_less (?N c) (?N b)"
      | "?M b = ?M c" "?N b = ?N c" "num_less (?P c) (?P b) \<or> ?P b = ?P c"
      unfolding version_ge_def by blast
    then show ?thesis
    proof cases
      case 1
      with p show ?thesis by (simp add: version_ge_def)
    next
      case 2
      with p show ?thesis by (simp add: version_ge_def)
    next
      case 3
      with p have "num_less (?P c) (?P a) \<or> ?P a = ?P c" using num_less_trans by metis
      with p 3 show ?thesis by (simp add: version_ge_def)
    qed
  qed
qed

lemmas eval_version =
  satisfies_def startsWith_def parseVersion_def compareVersions_def part_def Number_basic_def
  is_digit_def digit_value_def version_ge_def major_def minor_def patch_def

subsection \<open>Sorting and the descriptor store\<close>

lemma set_sort_insert: "set (sort_insert cmp x ys) = insert x (set ys)"
  by (induction ys) auto

lemma set_array_sort: "set (array_sort cmp xs) = set xs"
  by (induction xs) (simp_all add: array_sort_def set_sort_insert)

lemma sorted_sort_insert:
  "sorted_wrt (\<lambda>a b. version_ge num (version a) (version b)) ys \<Longrightarrow>
   sorted_wrt (\<lambda>a b. version_ge num (version a) (version b))
     (sort_insert (\<lambda>a b. compareVersions num (version b) (version a)) x ys)"
proof (induction ys)
  case Nil
  then show ?case by simp
next
  case (Cons y ys)
  show ?case
  proof (cases "version_ge num (version x) (version y)")
    case True
    have "\<forall>z\<in>set ys. version_ge num (version x) (version z)"
      using Cons.prems True version_ge_trans by fastforce
    with True Cons.prems show ?thesis by (simp add: lt_zero_compareVersions)
  next
    case False
    then have "version_ge num (version y) (version x)" by (rule version_ge_total)
    with False Cons show ?thesis by (simp add: lt_zero_compareVersions set_sort_insert)
  qed
qed

lemma sorted_array_sort:
  "sorted_wrt (\<lambda>a b. version_ge num (version a) (version b))
     (array_sort (\<lambda>a b. compareVersions num (version b) (version a)) xs)"
  by (induction xs) (simp_all add: array_sort_def sorted_sort_insert)

lemma find_sorted_first:
  "sorted_wrt R l \<Longrightarrow> find P l = Some d \<Longrightarrow> R d d \<Longrightarrow> x \<in> set l \<Longrightarrow> P x \<Longrightarrow> R d x"
  by (induction l) (auto split: if_splits)

lemma register_other: "name d \<noteq> nm \<Longrightarrow> descriptors (register num reg d) nm = descriptors reg nm"
  by (simp add: register_def Let_def)

lemma register_same:
  "descriptors (register num reg d) (name d) =
     Some (array_sort (\<lambda>a b. compareVersions num (version b) (version a))
            ((case descriptors reg (name d) of Some a \<Rightarrow> a | None \<Rightarrow> []) @ [d]))"
  by (simp add: register_def Let_def)

lemma store_of_register:
  assumes "store_of num reg ds"
  shows "store_of num (register num reg d) (ds @ [d])"
  unfolding store_of_def
proof
  fix nm
  from assms have h: "case descriptors reg nm of
         None \<Rightarrow> \<forall>x\<in>set ds. name x \<noteq> nm
       | Some l \<Rightarrow> sorted_wrt (\<lambda>a b. version_ge num (version a) (version b)) l
                   \<and> set l = {x \<in> set ds. name x = nm}"
    unfolding store_of_def by blast
  show "case descriptors (register num reg d) nm of
         None \<Rightarrow> \<forall>x\<in>set (ds @ [d]). name x \<noteq> nm
       | Some l \<Rightarrow> sorted_wrt (\<lambda>a b. version_ge num (version a) (version b)) l
                   \<and> set l = {x \<in> set (ds @ [d]). name x = nm}"
  proof (cases "name d = nm")
    case False
    show ?thesis
    proof (cases "descriptors reg nm")
      case None
      with h False show ?thesis by (simp add: register_other)
    next
      case (Some l)
      with h have "set l = {x \<in> set ds. name x = nm}"
        "sorted_wrt (\<lambda>a b. version_ge num (version a) (version b)) l" by simp_all
      moreover have "{x \<in> set (ds @ [d]). name x = nm} = {x \<in> set ds. name x = nm}"
        using False by auto
      ultimately show ?thesis using False Some by (simp add: register_other)
    qed
  next
    case True
    have "set (case descriptors reg nm of Some a \<Rightarrow> a | None \<Rightarrow> []) = {x \<in> set ds. name x = nm}"
      using h by (cases "descriptors reg nm") auto
    then have "set (array_sort (\<lambda>a b. compareVersions num (version b) (version a))
            ((case descriptors reg nm of Some a \<Rightarrow> a | None \<Rightarrow> []) @ [d]))
        = {x \<in> set (ds @ [d]). name x = nm}"
      using True by (auto simp add: set_array_sort)
    then show ?thesis using True register_same[of num reg d]
      by (simp add: sorted_array_sort)
  qed
qed

lemma store_of_registerAll: "store_of num (registerAll num new_registry ds) ds"
proof (induction ds rule: rev_induct)
  case Nil
  show ?case by (simp add: registerAll_def store_of_def new_registry_def)
next
  case (snoc d ds)
  then show ?case using store_of_register[of num _ ds d] by (simp add: registerAll_def)
qed

text \<open>
  Claim C1. Whatever descriptors were registered, in whatever order, and for every name and
  range: \<open>findCompatibleDescriptor\<close> returns a registered descriptor of that name whose
  version satisfies the range and is at least as high as the version of every other registered
  descriptor of that name that satisfies the range; it returns nothing exactly when no registered
  descriptor of that name satisfies the range (in particular when the name is unknown).
\<close>

theorem findCompatibleDescriptor_highest:
  "case findCompatibleDescriptor num (registerAll num new_registry ds) nm r of
     None \<Rightarrow> \<not> (\<exists>x\<in>set ds. name x = nm \<and> satisfies num (version x) r)
   | Some d \<Rightarrow> d \<in> set ds \<and> name d = nm \<and> satisfies num (version d) r
       \<and> (\<forall>x\<in>set ds. name x = nm \<and> satisfies num (version x) r
             \<longrightarrow> version_ge num (version d) (version x))"
proof -
  let ?st = "descriptors (registerAll num new_registry ds)"
  have st: "case ?st nm of
         None \<Rightarrow> \<forall>x\<in>set ds. name x \<noteq> nm
       | Some l \<Rightarrow> sorted_wrt (\<lambda>a b. version_ge num (version a) (version b)) l
                   \<and> set l = {x \<in> set ds. name x = nm}"
    using store_of_registerAll[of num ds] unfolding store_of_def by blast
  show ?thesis
  proof (cases "?st nm")
    case None
    with st have "\<forall>x\<in>set ds. name x \<noteq> nm" by simp
    with None show ?thesis by (simp add: findCompatibleDescriptor_def)
  next
    case (Some l)
    with st have srt: "sorted_wrt (\<lambda>a b. version_ge num (version a) (version b)) l"
      and sl: "set l = {x \<in> set ds. name x = nm}" by simp_all
    show ?thesis
    proof (cases "find (\<lambda>d. satisfies num (version d) r) l")
      case None
      then have "\<forall>x\<in>set l. \<not> satisfies num (version x) r" by (simp add: find_None_iff)
      with sl have "\<not> (\<exists>x\<in>set ds. name x = nm \<and> satisfies num (version x) r)" by blast
      with None Some show ?thesis by (simp add: findCompatibleDescriptor_def)
    next
      case found: (Some d)
      then have "d \<in> set l" "satisfies num (version d) r"
        by (auto simp: find_Some_iff)
      moreover have "\<forall>x\<in>set l. satisfies num (version x) r \<longrightarrow> version_ge num (version d) (version x)"
        using find_sorted_first[OF srt found version_ge_refl] by blast
      ultimately have "d \<in> set ds \<and> name d = nm \<and> satisfies num (version d) r
       \<and> (\<forall>x\<in>set ds. name x = nm \<and> satisfies num (version x) r
             \<longrightarrow> version_ge num (version d) (version x))" using sl by blast
      with found Some show ?thesis by (simp add: findCompatibleDescriptor_def)
    qed
  qed
qed

theorem findCompatibleDescriptor_highest_witness:
  "findCompatibleDescriptor Number_basic
     (registerAll Number_basic new_registry [lib ''1.2.0'', lib ''2.0.0'', lib ''1.9.9''])
     ''lib'' ''^1.0.0'' = Some (lib ''1.9.9'')
   \<and> version_ge Number_basic ''1.9.9'' ''1.2.0''
   \<and> satisfies Number_basic ''1.2.0'' ''^1.0.0'' \<and> \<not> satisfies Number_basic ''2.0.0'' ''^1.0.0''"
  using findCompatibleDescriptor_highest[where num = Number_basic
      and ds = "[lib ''1.2.0'', lib ''2.0.0'', lib ''1.9.9'']" and nm = "''lib''" and r = "''^1.0.0''"]
  by (simp add: findCompatibleDescriptor_def registerAll_def register_def array_sort_def
      new_registry_def lib_def eval_version)

subsection \<open>release\<close>

lemma map_fst_map_set: "k \<in> fst ` set m \<Longrightarrow> map fst (map_set k v m) = map fst m"
  by (induction m) auto

lemma keys_map_set: "fst ` set (map_set k v m) = insert k (fst ` set m)"
  by (induction m) auto

text \<open>
  The keys of the cache are distinct from the start, and the two operations that write to it
  keep them so.
\<close>

lemma distinct_map_set: "distinct (map fst m) \<Longrightarrow> distinct (map fst (map_set k v m))"
proof (induction m)
  case Nil
  then show ?case by simp
next
  case (Cons e m)
  show ?case
  proof (cases "fst e = k")
    case True
    with Cons.prems show ?thesis by simp
  next
    case False
    from Cons.prems have "fst e \<notin> fst ` set m" and "distinct (map fst m)" by simp_all
    with False Cons.IH show ?thesis by (simp add: keys_map_set)
  qed
qed

lemma new_registry_distinct: "distinct (map fst (loaded new_registry))"
  by (simp add: new_registry_def)

lemma cacheModule_distinct:
  "distinct (map fst (loaded reg)) \<Longrightarrow> distinct (map fst (loaded (cacheModule h reg d m)))"
  by (simp add: cacheModule_def distinct_map_set)

lemma release_distinct:
  "distinct (map fst (loaded reg)) \<Longrightarrow> distinct (map fst (loaded (release num reg nm r)))"
  by (simp add: release_def distinct_map_set split: option.splits prod.splits)

lemma find_index:
  "find P xs = Some x \<Longrightarrow> \<exists>i<length xs. xs ! i = x \<and> P x \<and> (\<forall>j<i. \<not> P (xs ! j))"
  by (auto simp: find_Some_iff)

lemma map_set_at:
  "distinct (map fst m) \<Longrightarrow> i < length m \<Longrightarrow> fst (m ! i) = k \<Longrightarrow> map_set k v m = m[i := (k, v)]"
proof (induction m arbitrary: i)
  case Nil
  then show ?case by simp
next
  case (Cons e m)
  show ?case
  proof (cases i)
    case 0
    with Cons.prems show ?thesis by simp
  next
    case (Suc j)
    with Cons.prems have j: "j < length m" "fst (m ! j) = k" by simp_all
    then have "k \<in> set (map fst m)" by (metis length_map nth_map nth_mem)
    moreover from Cons.prems have "fst e \<notin> set (map fst m)" by simp
    ultimately have "fst e \<noteq> k" by blast
    moreover from Cons.prems have "distinct (map fst m)" by simp
    ultimately show ?thesis using Suc j Cons.IH[of j] by simp
  qed
qed

text \<open>
  Claim C7. For every registry (its cache, like every \<^verbatim>\<open>Map\<close>, having distinct keys), name
  and range: \<open>release\<close> finds the instance that \<open>findCompatibleLoaded\<close> finds, the search of
  the cache-hit step of \<open>require\<close>, and replaces its reference count \<open>c\<close> by
  \<open>max 0 (c - 1)\<close>, leaving every other entry as it is; without such an instance the registry
  is unchanged. The keys of the cache and their order are unchanged, no entry is removed, and no
  reference count that was at least 0 falls below 0.
\<close>

theorem release_floors_at_zero:
  assumes dist: "distinct (map fst (loaded reg))"
  shows "(case findCompatibleLoaded num reg nm r of
            None \<Rightarrow> release num reg nm r = reg
          | Some (k, v) \<Rightarrow>
              (\<exists>i<length (loaded reg). loaded reg ! i = (k, v) \<and>
                 loaded (release num reg nm r) =
                   (loaded reg)[i := (k, v\<lparr>refCount := max 0 (refCount v - 1)\<rparr>)]))
       \<and> map fst (loaded (release num reg nm r)) = map fst (loaded reg)
       \<and> (\<forall>i<length (loaded reg). 0 \<le> refCount (snd (loaded reg ! i))
             \<longrightarrow> 0 \<le> refCount (snd (loaded (release num reg nm r) ! i)))"
proof (cases "findCompatibleLoaded num reg nm r")
  case None
  then show ?thesis by (simp add: release_def)
next
  case (Some e)
  obtain k v where e: "e = (k, v)" by (cases e)
  from Some have "find (compatible num nm r) (loaded reg) = Some (k, v)"
    by (simp add: findCompatibleLoaded_def e)
  from find_index[OF this] obtain i where i: "i < length (loaded reg)" "loaded reg ! i = (k, v)"
    by blast
  let ?v' = "v\<lparr>refCount := max 0 (refCount v - 1)\<rparr>"
  have "map_set k ?v' (loaded reg) = (loaded reg)[i := (k, ?v')]"
    using map_set_at[OF dist i(1), of k ?v'] i(2) by simp
  then have upd: "loaded (release num reg nm r) = (loaded reg)[i := (k, ?v')]"
    using Some e by (simp add: release_def)
  have "map fst ((loaded reg)[i := (k, ?v')]) = (map fst (loaded reg))[i := k]"
    by (simp add: map_update)
  also have "\<dots> = map fst (loaded reg)"
    using i by (simp add: list_update_same_conv)
  finally have keys: "map fst (loaded (release num reg nm r)) = map fst (loaded reg)"
    using upd by simp
  have floor: "\<forall>j<length (loaded reg). 0 \<le> refCount (snd (loaded reg ! j))
             \<longrightarrow> 0 \<le> refCount (snd (loaded (release num reg nm r) ! j))"
    unfolding upd using i(1) by (simp add: nth_list_update)
  have first: "\<exists>i<length (loaded reg). loaded reg ! i = (k, v) \<and>
                 loaded (release num reg nm r) = (loaded reg)[i := (k, ?v')]"
    using i upd by blast
  show ?thesis using Some e first keys floor by simp
qed

theorem release_floors_at_zero_witness:
  "distinct (map fst (loaded two_cached))
   \<and> map fst (loaded (release Number_basic two_cached ''lib'' ''*'')) = [''lib@1.0.0'', ''lib@2.0.0'']
   \<and> map (\<lambda>e. refCount (snd e)) (loaded (release Number_basic two_cached ''lib'' ''*'')) = [0, 1]
   \<and> map (\<lambda>e. refCount (snd e))
        (loaded (release Number_basic (release Number_basic two_cached ''lib'' ''*'') ''lib'' ''*''))
       = [0, 1]"
  using release_floors_at_zero[where reg = two_cached and num = Number_basic and nm = "''lib''"
      and r = "''*''"]
  by (simp add: two_cached_def cached_def new_registry_def release_def findCompatibleLoaded_def
      compatible_def lib_def eval_version)

subsection \<open>The global binding name\<close>

lemma upper_char_alnum: "is_alnum c \<Longrightarrow> upper_char c \<noteq> CHR ''_''"
  unfolding is_alnum_def is_lower_def is_upper_def is_digit_def upper_char_def
  by auto

lemma norm_char_eq:
  "(upper_char (if is_alnum c then c else CHR ''_'') = upper_char (if is_alnum d then d else CHR ''_''))
    = same_class c d"
proof -
  have u: "upper_char (CHR ''_'') = CHR ''_''" by (simp add: upper_char_def)
  show ?thesis using upper_char_alnum[of c] upper_char_alnum[of d]
    by (auto simp: same_class_def u)
qed

text \<open>
  Claim C9, as stated, fails: the derivation is a function of the name, but not an injective
  one. \<^verbatim>\<open>react-dom\<close> and \<^verbatim>\<open>react_dom\<close> are distinct names with the same global binding
  name.
\<close>

theorem globalKey_collision:
  "''react-dom'' \<noteq> ''react_dom'' \<and> globalKey ''react-dom'' = globalKey ''react_dom''"
  by (simp add: globalKey_def toUpperCase_def replace_non_alnum_def is_alnum_def is_lower_def
      is_upper_def is_digit_def upper_char_def)

text \<open>
  Claim C9, amended. Two names get the same global binding name exactly when they have the same
  length and, at every position, either both characters are not alphanumeric or both are
  alphanumeric and equal up to the case of letters.
\<close>

theorem globalKey_same_iff:
  "(globalKey a = globalKey b) = (length a = length b \<and> (\<forall>i<length a. same_class (a ! i) (b ! i)))"
proof -
  define f where "f = (\<lambda>c. upper_char (if is_alnum c then c else CHR ''_''))"
  have f: "\<And>c d. (f c = f d) = same_class c d"
    unfolding f_def by (rule norm_char_eq)
  have "(globalKey a = globalKey b) = (map f a = map f b)"
    by (simp add: globalKey_def toUpperCase_def replace_non_alnum_def comp_def f_def)
  also have "\<dots> = (length a = length b \<and> (\<forall>i<length a. f (a ! i) = f (b ! i)))"
    by (auto simp: list_eq_iff_nth_eq)
  finally show ?thesis by (simp add: f)
qed

theorem globalKey_same_iff_witness:
  "globalKey ''a.b'' = globalKey ''A-B'' \<and> globalKey ''ab'' \<noteq> globalKey ''a_''"
  using globalKey_same_iff[of "''a.b''" "''A-B''"] globalKey_same_iff[of "''ab''" "''a_''"]
  by (simp add: same_class_def is_alnum_def is_lower_def is_upper_def is_digit_def upper_char_def
      less_Suc_eq numeral_3_eq_3 numeral_2_eq_2)

subsection \<open>The range rules\<close>

text \<open>
  The rules of range satisfaction, with \<open>v >= rv\<close> read as the lexicographic order of the
  specification, hold whenever the patch component of \<open>v\<close> or of \<open>rv\<close> is finite.
\<close>

lemma satisfies_star: "satisfies num v ''*''"
  by (simp add: satisfies_def)

lemma satisfies_latest: "satisfies num v ''latest''"
  by (simp add: satisfies_def)

lemma satisfies_caret:
  "satisfies num v (CHR ''^'' # rv) =
     (major num v = major num rv \<and> ge_zero (compareVersions num v rv))"
  using major_not_NaN[of num v] major_not_NaN[of num rv]
  by (auto simp add: satisfies_def startsWith_def parseVersion_parts strict_neq_iff)

lemma satisfies_tilde:
  "satisfies num v (CHR ''~'' # rv) =
     (major num v = major num rv \<and> minor num v = minor num rv
      \<and> ge_zero (compareVersions num v rv))"
  using major_not_NaN[of num v] major_not_NaN[of num rv]
    minor_not_NaN[of num v] minor_not_NaN[of num rv]
  by (auto simp add: satisfies_def startsWith_def parseVersion_parts strict_neq_iff)

lemma satisfies_ge:
  "satisfies num v (''>='' @ rv) = ge_zero (compareVersions num v rv)"
  by (simp add: satisfies_def startsWith_def)

lemma satisfies_exact:
  "r \<noteq> ''*'' \<Longrightarrow> r \<noteq> ''latest'' \<Longrightarrow> \<not> startsWith r ''^'' \<Longrightarrow> \<not> startsWith r ''~''
    \<Longrightarrow> \<not> startsWith r ''>='' \<Longrightarrow> satisfies num v r = (v = r)"
  by (simp add: satisfies_def)

lemma ge_zero_compareVersions_finite:
  "finite_patch num v \<or> finite_patch num rv \<Longrightarrow>
   ge_zero (compareVersions num v rv) = version_ge num v rv"
  by (auto simp add: ge_zero_compareVersions finite_patch_def)

lemma satisfies_rules:
  assumes "finite_patch num v \<or> finite_patch num rv"
  shows "satisfies num v ''*'' \<and> satisfies num v ''latest''
    \<and> satisfies num v (''^'' @ rv) = (major num v = major num rv \<and> version_ge num v rv)
    \<and> satisfies num v (''~'' @ rv)
        = (major num v = major num rv \<and> minor num v = minor num rv \<and> version_ge num v rv)
    \<and> satisfies num v (''>='' @ rv) = version_ge num v rv
    \<and> (r \<noteq> ''*'' \<and> r \<noteq> ''latest'' \<and> \<not> startsWith r ''^'' \<and> \<not> startsWith r ''~''
         \<and> \<not> startsWith r ''>='' \<longrightarrow> satisfies num v r = (v = r))"
  using assms satisfies_caret[of num v rv] satisfies_tilde[of num v rv] satisfies_ge[of num v rv]
    satisfies_exact[of r num v] ge_zero_compareVersions_finite[of num v rv]
    satisfies_star[of num v] satisfies_latest[of num v]
  by simp

lemma satisfies_examples:
  "satisfies Number_basic ''1.2.0'' ''^1.2.0'' \<and> satisfies Number_basic ''1.9.9'' ''^1.2.0''
   \<and> \<not> satisfies Number_basic ''2.0.0'' ''^1.2.0'' \<and> \<not> satisfies Number_basic ''0.9.9'' ''^1.2.0''
   \<and> satisfies Number_basic ''1.2.0'' ''~1.2.0'' \<and> satisfies Number_basic ''1.2.9'' ''~1.2.0''
   \<and> \<not> satisfies Number_basic ''1.3.0'' ''~1.2.0''
   \<and> satisfies Number_basic ''1.2.0'' ''>=1.2.0'' \<and> satisfies Number_basic ''2.0.0'' ''>=1.2.0''
   \<and> \<not> satisfies Number_basic ''1.1.9'' ''>=1.2.0''"
  by (simp add: eval_version)


text \<open>
  Claim C2 fails on the code where the claim is right: \<open>compareVersions\<close> ends with
  \<^verbatim>\<open>return aP - bP\<close>, which is \<^verbatim>\<open>NaN\<close> for two infinite patch components of the same sign,
  and \<^verbatim>\<open>NaN >= 0\<close> is false. The version \<^verbatim>\<open>1.0.Infinity\<close> is at least itself in the
  lexicographic order, and the ranges \<^verbatim>\<open>>=1.0.Infinity\<close>, \<^verbatim>\<open>^1.0.Infinity\<close> and
  \<^verbatim>\<open>~1.0.Infinity\<close> all reject it.
\<close>

theorem satisfies_rejects_equal_infinite_patch:
  "parseVersion Number_basic ''1.0.Infinity'' = (Fin 1, Fin 0, PosInf)
   \<and> version_ge Number_basic ''1.0.Infinity'' ''1.0.Infinity''
   \<and> compareVersions Number_basic ''1.0.Infinity'' ''1.0.Infinity'' = NaN
   \<and> \<not> satisfies Number_basic ''1.0.Infinity'' ''>=1.0.Infinity''
   \<and> \<not> satisfies Number_basic ''1.0.Infinity'' ''^1.0.Infinity''
   \<and> \<not> satisfies Number_basic ''1.0.Infinity'' ''~1.0.Infinity''"
  by (simp add: eval_version)

subsection \<open>The loaded-instance cache is searched in insertion order\<close>

lemmas eval_load =
  require_enter_def require_leave_def findCompatibleLoaded_def compatible_def
  findCompatibleDescriptor_def loadSources_def fromLocal_def fromCdn_def fromGlobal_def
  cacheModule_def present_def registry_after_def outcome_of_def awaited_def
  registerAll_def register_def array_sort_def addResolver_def new_registry_def Let_def

lemmas eval_examples =
  lib_registry_def lib_def answering_def bare_host_def util_def app_def broken_def
  app_registry_def pkg_def local_host_def cdn_host_def throwing_def pkg_registry_def
  first_call_def second_call_def shared_load_def both_settled_def one_after_the_other_def
  wanted_def loadFromLocal_def loadFromCdn_def loadUrl_def

lemma both_cached_loaded:
  "loaded both_cached =
     [(''lib@1.0.0'', \<lparr>descriptor = lib ''1.0.0'', module = Object 1, loadedAt = 0, refCount = 1\<rparr>),
      (''lib@2.0.0'', \<lparr>descriptor = lib ''2.0.0'', module = Object 2, loadedAt = 0, refCount = 1\<rparr>)]"
  by (simp add: both_cached_def exact_cached_def eval_nat_numeral eval_load eval_version
      lib_registry_def lib_def answering_def bare_host_def)


text \<open>
  Claim C10. \<open>findCompatibleLoaded\<close> returns the first entry of the cache, in insertion order,
  whose key starts with \<^verbatim>\<open>name@\<close> and whose version satisfies the range; the cache-hit step
  of \<open>require\<close> returns the module of that entry and \<open>release\<close> updates that entry; if there
  is no such entry, \<open>require\<close> has no cache hit and \<open>release\<close> changes nothing. The entry
  need not be the highest version: after \<open>lib@1.0.0\<close> and then \<open>lib@2.0.0\<close> were loaded,
  \<^verbatim>\<open>require('lib', '*')\<close> returns the module of 1.0.0, although 2.0.0 is cached, satisfies
  the range and is the descriptor that \<open>findCompatibleDescriptor\<close> selects.
\<close>

theorem cache_hit_is_first_cached:
  "(case findCompatibleLoaded num reg nm r of
      None \<Rightarrow> (\<forall>e\<in>set (loaded reg). \<not> compatible num nm r e)
             \<and> (\<forall>m. fst (require_enter num reg nm r) \<noteq> Hit m)
             \<and> release num reg nm r = reg
    | Some e \<Rightarrow>
        (\<exists>i<length (loaded reg). loaded reg ! i = e \<and> compatible num nm r e
           \<and> (\<forall>j<i. \<not> compatible num nm r (loaded reg ! j)))
        \<and> fst (require_enter num reg nm r) = Hit (module (snd e))
        \<and> release num reg nm r =
            reg\<lparr>loaded := map_set (fst e) ((snd e)\<lparr>refCount := max 0 (refCount (snd e) - 1)\<rparr>)
                              (loaded reg)\<rparr>)
   \<and> map fst (loaded both_cached) = [''lib@1.0.0'', ''lib@2.0.0'']
   \<and> outcome_of (require 1 Number_basic bare_host both_cached ''lib'' ''*'') = Some (Inr (Object 1))
   \<and> compatible Number_basic ''lib'' ''*'' (loaded both_cached ! 1)
   \<and> \<not> version_ge Number_basic ''1.0.0'' ''2.0.0''
   \<and> findCompatibleDescriptor Number_basic both_cached ''lib'' ''*'' = Some (lib ''2.0.0'')"
proof -
  have general: "case findCompatibleLoaded num reg nm r of
      None \<Rightarrow> (\<forall>e\<in>set (loaded reg). \<not> compatible num nm r e)
             \<and> (\<forall>m. fst (require_enter num reg nm r) \<noteq> Hit m)
             \<and> release num reg nm r = reg
    | Some e \<Rightarrow>
        (\<exists>i<length (loaded reg). loaded reg ! i = e \<and> compatible num nm r e
           \<and> (\<forall>j<i. \<not> compatible num nm r (loaded reg ! j)))
        \<and> fst (require_enter num reg nm r) = Hit (module (snd e))
        \<and> release num reg nm r =
            reg\<lparr>loaded := map_set (fst e) ((snd e)\<lparr>refCount := max 0 (refCount (snd e) - 1)\<rparr>)
                              (loaded reg)\<rparr>"
  proof (cases "findCompatibleLoaded num reg nm r")
    case None
    then have "\<forall>e\<in>set (loaded reg). \<not> compatible num nm r e"
      by (auto simp add: findCompatibleLoaded_def find_None_iff)
    with None show ?thesis by (simp add: require_enter_def release_def Let_def)
  next
    case (Some e)
    then have "find (compatible num nm r) (loaded reg) = Some e"
      by (simp add: findCompatibleLoaded_def)
    from find_index[OF this]
    have "\<exists>i<length (loaded reg). loaded reg ! i = e \<and> compatible num nm r e
           \<and> (\<forall>j<i. \<not> compatible num nm r (loaded reg ! j))" .
    with Some show ?thesis by (cases e) (simp add: require_enter_def release_def)
  qed
  have dom: "findCompatibleDescriptor Number_basic both_cached ''lib'' ''*'' = Some (lib ''2.0.0'')"
    by (simp add: both_cached_def exact_cached_def eval_nat_numeral eval_load eval_version
      lib_registry_def lib_def answering_def bare_host_def)
  have hit: "outcome_of (require 1 Number_basic bare_host both_cached ''lib'' ''*'') = Some (Inr (Object 1))"
    by (simp add: eval_load eval_version both_cached_loaded lib_def)
  have cmp: "compatible Number_basic ''lib'' ''*'' (loaded both_cached ! 1)"
    by (simp add: both_cached_loaded compatible_def eval_version)
  have low: "\<not> version_ge Number_basic ''1.0.0'' ''2.0.0''"
    by (simp add: eval_version)
  show ?thesis using general dom hit cmp low by (simp add: both_cached_loaded)
qed

theorem cache_hit_is_first_cached_witness:
  "findCompatibleLoaded Number_basic both_cached ''lib'' ''*'' = Some (loaded both_cached ! 0)
   \<and> version (descriptor (snd (loaded both_cached ! 0))) = ''1.0.0''
   \<and> fst (require_enter Number_basic both_cached ''lib'' ''*'') = Hit (Object 1)"
  using cache_hit_is_first_cached[where num = Number_basic and reg = both_cached
      and nm = "''lib''" and r = "''*''"]
  by (simp add: both_cached_loaded findCompatibleLoaded_def compatible_def eval_version lib_def)

subsection \<open>Dependencies come first\<close>










subsection \<open>A resolver that throws\<close>

lemma resolver_error_leaves_loadSources:
  "resolvers reg = r # rs \<Longrightarrow> r nm (version d) = Inl e \<Longrightarrow>
     loadSources h reg nm d = (Inl e, [ResolverCall 0])"
  by (simp add: loadSources_def)

lemma local_failure_goes_on:
  "present (localPath d) \<Longrightarrow> loadFromLocal h d = Inl e \<Longrightarrow>
     fst (fromLocal h nm d) = fst (fromCdn h nm d)"
  by (simp add: fromLocal_def split: prod.splits)

lemma cdn_failure_goes_on:
  "present (cdnUrl d) \<Longrightarrow> loadFromCdn h d = Inl e \<Longrightarrow>
     fst (fromCdn h nm d) = fst (fromGlobal h nm d)"
  by (simp add: fromCdn_def split: prod.splits)

text \<open>
  Claim C5 fails on the code where the claim is right. The \<^verbatim>\<open>await\<close> of a resolver has no
  handler, unlike the local and the remote load: with one resolver that throws, the load of
  \<open>pkg\<close> is rejected with the resolver's error after that one call, nothing is cached,
  although the local bundle would have served the module (it does without the resolver). A
  failing local load does go on to the remote URL.
\<close>

theorem resolver_error_is_fatal:
  "outcome_of (loadModule 1 Number_basic local_host (addResolver pkg_registry throwing) ''pkg'' ''*'')
     = Some (Inl (ResolverFailed 0))
   \<and> awaited (loadModule 1 Number_basic local_host (addResolver pkg_registry throwing) ''pkg'' ''*'')
     = [ResolverCall 0]
   \<and> loaded (registry_after
        (loadModule 1 Number_basic local_host (addResolver pkg_registry throwing) ''pkg'' ''*'')) = []
   \<and> outcome_of (loadModule 1 Number_basic local_host pkg_registry ''pkg'' ''*'')
     = Some (Inr (Object 7))
   \<and> outcome_of (loadModule 1 Number_basic cdn_host pkg_registry ''pkg'' ''*'')
     = Some (Inr (Object 8))
   \<and> awaited (loadModule 1 Number_basic cdn_host pkg_registry ''pkg'' ''*'')
     = [LocalLoad ''/shared/pkg.js'', CdnLoad ''https://cdn.example/pkg.js'']"
  by (simp add: eval_load eval_version eval_examples)

subsection \<open>Two calls before either settles\<close>

text \<open>
  Claim C3 fails on the code where the claim is right. Of two calls \<^verbatim>\<open>require('lib', '*')\<close>
  made before either settles, the first starts the load and the second joins it under the key
  \<^verbatim>\<open>lib@*\<close>; one resolver call is made and both calls get the same module. The instance is
  cached with reference count 1, and nothing counts the second caller: the count is 1, not 2.
  Made one after the other, the same two calls leave the count at 2.
\<close>

theorem joined_call_is_not_counted:
  "fst first_call = Started ''lib@*''
   \<and> fst second_call = Joined ''lib@*''
   \<and> outcome_of shared_load = Some (Inr (Object 2))
   \<and> awaited shared_load = [ResolverCall 0]
   \<and> map (\<lambda>e. (fst e, refCount (snd e))) (loaded both_settled) = [(''lib@2.0.0'', 1)]
   \<and> loading both_settled = []
   \<and> map (\<lambda>e. (fst e, refCount (snd e))) (loaded one_after_the_other) = [(''lib@2.0.0'', 2)]"
  by (simp add: eval_nat_numeral eval_load eval_version eval_examples)

subsection \<open>requireAll\<close>

lemma requireAll_settle_rejects:
  "(req, Inl e) \<in> set settled \<Longrightarrow> optional req \<noteq> Some True \<Longrightarrow>
     isl (requireAll_settle settled results)"
proof (induction settled arbitrary: results)
  case Nil
  then show ?case by simp
next
  case (Cons x settled)
  obtain rq out where x: "x = (rq, out)" by (cases x)
  show ?case
  proof (cases "requireAll_item rq out results")
    case (Pair res results')
    show ?thesis
    proof (cases res)
      case (Inl e')
      with Pair x show ?thesis by simp
    next
      case (Inr u)
      with Pair x Cons.prems have "(req, Inl e) \<in> set settled"
        by (auto simp: requireAll_item_def split: sum.splits if_splits)
      from Cons.IH[OF this Cons.prems(2)] Pair Inr x show ?thesis by simp
    qed
  qed
qed

lemma requireAll_settle_fulfils:
  "\<forall>x\<in>set settled. isl (snd x) \<longrightarrow> optional (fst x) = Some True \<Longrightarrow>
   \<exists>res. requireAll_settle settled results = Inr res
     \<and> fst ` set res
        = fst ` set results \<union> {ModuleRequest.name req |req m. (req, Inr m) \<in> set settled}"
proof (induction settled arbitrary: results)
  case Nil
  then show ?case by simp
next
  case (Cons x settled)
  obtain rq out where x: "x = (rq, out)" by (cases x)
  from Cons.prems have rest: "\<forall>x\<in>set settled. isl (snd x) \<longrightarrow> optional (fst x) = Some True"
    by simp
  show ?case
  proof (cases out)
    case (Inl e)
    with Cons.prems x have opt: "optional rq = Some True" by simp
    from Cons.IH[OF rest, of results] obtain res where
      "requireAll_settle settled results = Inr res"
      "fst ` set res
        = fst ` set results \<union> {ModuleRequest.name req |req m. (req, Inr m) \<in> set settled}"
      by blast
    with Inl opt x show ?thesis by (auto simp: requireAll_item_def)
  next
    case (Inr m)
    from Cons.IH[OF rest, of "map_set (ModuleRequest.name rq) m results"] obtain res where
      "requireAll_settle settled (map_set (ModuleRequest.name rq) m results) = Inr res"
      "fst ` set res
        = fst ` set (map_set (ModuleRequest.name rq) m results)
          \<union> {ModuleRequest.name req |req m. (req, Inr m) \<in> set settled}"
      by blast
    with Inr x show ?thesis by (auto simp: requireAll_item_def keys_map_set)
  qed
qed

text \<open>
  Claim C6. Whatever the order in which they settle, a batch of an optional request that fails
  and a request that succeeds makes \<open>requireAll\<close> return the map with exactly the entry of
  the successful request. For every batch: if a request that is not optional fails,
  \<open>requireAll\<close> is rejected; if only optional requests fail, it returns a map whose keys are
  exactly the names of the requests that succeeded.
\<close>

theorem requireAll_optional_failure:
  "(optional opt = Some True \<longrightarrow>
      requireAll [(opt, Inl e), (req, Inr m)] = Inr [(ModuleRequest.name req, m)]
      \<and> requireAll [(req, Inr m), (opt, Inl e)] = Inr [(ModuleRequest.name req, m)])
   \<and> ((req', Inl e') \<in> set settled \<and> optional req' \<noteq> Some True \<longrightarrow> isl (requireAll settled))
   \<and> ((\<forall>x\<in>set settled. isl (snd x) \<longrightarrow> optional (fst x) = Some True) \<longrightarrow>
        (\<exists>res. requireAll settled = Inr res
           \<and> fst ` set res = {ModuleRequest.name rq |rq v. (rq, Inr v) \<in> set settled}))"
proof -
  have a: "optional opt = Some True \<longrightarrow>
      requireAll [(opt, Inl e), (req, Inr m)] = Inr [(ModuleRequest.name req, m)]
      \<and> requireAll [(req, Inr m), (opt, Inl e)] = Inr [(ModuleRequest.name req, m)]"
    by (simp add: requireAll_def requireAll_item_def)
  have b: "(req', Inl e') \<in> set settled \<and> optional req' \<noteq> Some True \<longrightarrow> isl (requireAll settled)"
    using requireAll_settle_rejects[of req' e' settled "[]"] by (simp add: requireAll_def)
  have c: "(\<forall>x\<in>set settled. isl (snd x) \<longrightarrow> optional (fst x) = Some True) \<longrightarrow>
        (\<exists>res. requireAll settled = Inr res
           \<and> fst ` set res = {ModuleRequest.name rq |rq v. (rq, Inr v) \<in> set settled})"
    using requireAll_settle_fulfils[of settled "[]"] by (simp add: requireAll_def)
  from a b c show ?thesis by blast
qed

theorem requireAll_optional_failure_witness:
  "requireAll [(wanted ''ghost'' (Some True), Inl (NoCompatibleDescriptor ''ghost'' ''*'')),
               (wanted ''lib'' None, Inr (Object 2))] = Inr [(''lib'', Object 2)]
   \<and> requireAll [(wanted ''lib'' None, Inr (Object 2)),
                 (wanted ''ghost'' None, Inl (NoCompatibleDescriptor ''ghost'' ''*''))]
       = Inl (NoCompatibleDescriptor ''ghost'' ''*'')"
  using requireAll_optional_failure[where opt = "wanted ''ghost'' (Some True)"
      and e = "NoCompatibleDescriptor ''ghost'' ''*''" and req = "wanted ''lib'' None"
      and m = "Object 2" and req' = "wanted ''ghost'' None"
      and e' = "NoCompatibleDescriptor ''ghost'' ''*''"
      and settled = "[(wanted ''lib'' None, Inr (Object 2)),
                 (wanted ''ghost'' None, Inl (NoCompatibleDescriptor ''ghost'' ''*''))]"]
  by (simp add: wanted_def requireAll_def requireAll_item_def)

subsection \<open>Rewriting the imports\<close>



lemma startsWith_append [simp]: "startsWith (l @ x) l"
  by (simp add: startsWith_def)


lemma run_append: "list_all (in_cls c) xs \<Longrightarrow> \<not> in_cls c y \<Longrightarrow> run c (xs @ y # ys) = length xs"
  by (induction xs) (simp_all add: run_def)

















lemma line_tail:
  \<open>'' from "'' @ nm @ ''";'' @ rest
     = '' '' @ ''from'' @ '' '' @ [CHR 0x22] @ nm @ [CHR 0x22] @ [CHR '';''] @ rest\<close>
  by simp
































end
